theory Spec2Isabelle
  imports Complex_Main
begin

section \<open>Data model (types.ts)\<close>

text \<open>
  A JavaScript \<open>number\<close> is modelled as a real, and the values \<open>NaN\<close> and
  \<open>Infinity\<close> are left out; only the image compression, whose result depends on how a
  quotient and a product are rounded, is modelled in double arithmetic. An optional
  property \<open>f?: T\<close> is a field of type \<open>T option\<close>, \<open>None\<close> standing for
  \<open>undefined\<close>. The fields \<open>id\<close>, \<open>x\<close> and \<open>y\<close> of the interface \<open>Photo\<close> are named
  \<open>photo_id\<close>, \<open>pos_x\<close> and \<open>pos_y\<close>.
\<close>

record geo =
  lat :: real
  lng :: real
  city :: "string option"
  country :: "string option"

record photo =
  photo_id :: string
  dataUrl :: string
  timestamp :: real
  pos_x :: real
  pos_y :: real
  rotation :: real
  caption :: "string option"
  isGeneratingCaption :: "bool option"
  isPublic :: "bool option"
  developmentProgress :: "real option"
  location :: "geo option"

text \<open>Truthiness of an optional boolean: only \<open>true\<close> is truthy.\<close>

definition truthy :: "bool option \<Rightarrow> bool" where
  "truthy b = (b = Some True)"

text \<open>
  The result of a call that may throw (or of a promise that may reject): \<open>Throws\<close> for
  any exception, \<open>Returns v\<close> for a value. \<open>try_catch body handler\<close> is
  \<open>try { body } catch (e) { handler }\<close>.
\<close>

datatype 'a outcome = Throws | Returns 'a

definition try_catch :: "'a outcome \<Rightarrow> 'a outcome \<Rightarrow> 'a outcome" where
  "try_catch body handler = (case body of Throws \<Rightarrow> handler | Returns v \<Rightarrow> Returns v)"

section \<open>Photo lifecycle controller (App.tsx)\<close>

text \<open>
  Every \<open>setPhotos(prev => ...)\<close> is modelled by its updater, a function from the
  previous collection to the next one.
\<close>

subsection \<open>handleCapture\<close>

text \<open>
  What \<open>handleCapture\<close> reads from its surroundings: the fresh identifier, the random
  draw for the rotation, the viewport size and the clock.
\<close>

record capture_env =
  randomUUID :: string
  random_draw :: real
  innerWidth :: real
  innerHeight :: real
  date_now :: real

definition newPhoto :: "capture_env \<Rightarrow> string \<Rightarrow> geo option \<Rightarrow> photo" where
  "newPhoto e url userLocation =
     (let randomRotation = (random_draw e * 10) - 5;
          isMobile = innerWidth e < 768;
          startX = (if isMobile then (innerWidth e / 2) - 120 else 40);
          startY = (if isMobile then 20 else innerHeight e - 400)
      in \<lparr> photo_id = randomUUID e,
           dataUrl = url,
           timestamp = date_now e,
           pos_x = startX,
           pos_y = startY,
           rotation = randomRotation,
           caption = Some [],
           isGeneratingCaption = Some True,
           isPublic = Some False,
           developmentProgress = Some 0,
           location = userLocation \<rparr>)"

text \<open>The first update, before the captioning call is awaited.\<close>

definition handleCapture_insert ::
  "capture_env \<Rightarrow> string \<Rightarrow> geo option \<Rightarrow> photo list \<Rightarrow> photo list" where
  "handleCapture_insert e url userLocation prev = prev @ [newPhoto e url userLocation]"

text \<open>
  The second update, once the promise of \<open>generatePhotoCaption\<close> has settled: the
  \<open>try\<close> branch for a resolved promise, the \<open>catch\<close> branch for a rejected one.
\<close>

definition handleCapture_settle :: "string \<Rightarrow> string outcome \<Rightarrow> photo list \<Rightarrow> photo list" where
  "handleCapture_settle i settled prev =
     (case settled of
        Returns c \<Rightarrow>
          map (\<lambda>p. if photo_id p = i
                    then p\<lparr>caption := Some c, isGeneratingCaption := Some False\<rparr> else p) prev
      | Throws \<Rightarrow>
          map (\<lambda>p. if photo_id p = i then p\<lparr>isGeneratingCaption := Some False\<rparr> else p) prev)"

subsection \<open>updatePhotoPosition, updatePhotoProgress, deletePhoto\<close>

definition updatePhotoPosition :: "string \<Rightarrow> real \<Rightarrow> real \<Rightarrow> photo list \<Rightarrow> photo list" where
  "updatePhotoPosition i x y prev =
     map (\<lambda>p. if photo_id p = i then p\<lparr>pos_x := x, pos_y := y\<rparr> else p) prev"

definition updatePhotoProgress :: "string \<Rightarrow> real \<Rightarrow> photo list \<Rightarrow> photo list" where
  "updatePhotoProgress i progress prev =
     map (\<lambda>p. if photo_id p = i then p\<lparr>developmentProgress := Some progress\<rparr> else p) prev"

definition deletePhoto :: "string \<Rightarrow> photo list \<Rightarrow> photo list" where
  "deletePhoto i prev = filter (\<lambda>p. photo_id p \<noteq> i) prev"

subsection \<open>handleToggleShare\<close>

text \<open>
  \<open>Math.random()\<close> is a stream \<open>rnd\<close> of draws and a counter of the draws made so far.
  The updater also calls \<open>storageService.uploadToCloud\<close>; the photos handed to it are
  collected in order (one toast is shown per upload).
\<close>

definition placeholder :: "real \<Rightarrow> real \<Rightarrow> geo" where
  "placeholder r1 r2 =
     \<lparr> lat = 35.6762 + (r1 - 0.5), lng = 139.6503 + (r2 - 0.5),
       city = Some ''Unknown'', country = None \<rparr>"

text \<open>\<open>!p.location || !p.location.lat\<close>: no location, or a latitude that is falsy.\<close>

definition lacks_latitude :: "geo option \<Rightarrow> bool" where
  "lacks_latitude loc = (case loc of None \<Rightarrow> True | Some l \<Rightarrow> lat l = 0)"

definition toggle_photo :: "(nat \<Rightarrow> real) \<Rightarrow> nat \<Rightarrow> photo \<Rightarrow> photo \<times> nat \<times> photo list" where
  "toggle_photo rnd n p =
     (let isNowPublic = \<not> truthy (isPublic p);
          synth = isNowPublic \<and> lacks_latitude (location p);
          updatedLoc = (if synth then Some (placeholder (rnd n) (rnd (n + 1))) else location p);
          n' = (if synth then n + 2 else n);
          uploaded = (if isNowPublic
                      then [p\<lparr>isPublic := Some True, location := updatedLoc\<rparr>] else [])
      in (p\<lparr>isPublic := Some isNowPublic, location := updatedLoc\<rparr>, n', uploaded))"

fun toggle_map ::
  "string \<Rightarrow> (nat \<Rightarrow> real) \<Rightarrow> nat \<Rightarrow> photo list \<Rightarrow> photo list \<times> nat \<times> photo list" where
  "toggle_map i rnd n [] = ([], n, [])"
| "toggle_map i rnd n (p # ps) =
     (if photo_id p = i
      then (case toggle_photo rnd n p of (p', n', up) \<Rightarrow>
              (case toggle_map i rnd n' ps of (ps', n'', ups) \<Rightarrow> (p' # ps', n'', up @ ups)))
      else (case toggle_map i rnd n ps of (ps', n'', ups) \<Rightarrow> (p # ps', n'', ups)))"

definition handleToggleShare ::
  "string \<Rightarrow> (nat \<Rightarrow> real) \<Rightarrow> photo list \<Rightarrow> photo list \<times> nat \<times> photo list" where
  "handleToggleShare i rnd prev = toggle_map i rnd 0 prev"

text \<open>The next collection, and the photos sent to \<open>uploadToCloud\<close>.\<close>

definition toggled :: "photo list \<times> nat \<times> photo list \<Rightarrow> photo list" where
  "toggled r = fst r"

definition uploadedToCloud :: "photo list \<times> nat \<times> photo list \<Rightarrow> photo list" where
  "uploadedToCloud r = snd (snd r)"

subsection \<open>handleEditPhoto\<close>

text \<open>
  The update made before the style-edit call, and the update made when it has returned
  \<open>newImageData\<close> (\<open>None\<close> for \<open>null\<close>). \<open>newImageData || p.dataUrl\<close> keeps the old
  image for \<open>null\<close> and for the empty string.
\<close>

definition handleEditPhoto_begin :: "string \<Rightarrow> photo list \<Rightarrow> photo list" where
  "handleEditPhoto_begin i prev =
     map (\<lambda>p. if photo_id p = i then p\<lparr>isGeneratingCaption := Some True\<rparr> else p) prev"

definition or_dataUrl :: "string option \<Rightarrow> string \<Rightarrow> string" where
  "or_dataUrl newImageData old =
     (case newImageData of None \<Rightarrow> old | Some s \<Rightarrow> if s = [] then old else s)"

definition handleEditPhoto_finish :: "string \<Rightarrow> string option \<Rightarrow> photo list \<Rightarrow> photo list" where
  "handleEditPhoto_finish i newImageData prev =
     map (\<lambda>p. if photo_id p = i
               then p\<lparr>dataUrl := or_dataUrl newImageData (dataUrl p),
                      isGeneratingCaption := Some False\<rparr>
               else p) prev"

section \<open>The captioning and style-edit service\<close>

text \<open>
  The provider behind \<open>ai.models.generateContent\<close> is a parameter: for the captioning
  request it answers with \<open>response.text\<close> (which may be undefined), for the style-edit
  request with the parts of the first candidate (the empty list when there is none); either
  call may throw. Both are given the image data and the text of the request.
\<close>

record blob =
  mimeType :: "string option"
  data :: "string option"

record part =
  inlineData :: "blob option"

record gemini =
  API_KEY :: string
  caption_request :: "string \<Rightarrow> string \<Rightarrow> string option outcome"
  edit_request :: "string \<Rightarrow> string \<Rightarrow> part list outcome"

text \<open>\<open>s.split(',')\<close>: the pieces of \<open>s\<close> between commas, never the empty list.\<close>

fun split_comma :: "string \<Rightarrow> string list" where
  "split_comma [] = [[]]"
| "split_comma (c # cs) =
     (if c = CHR '','' then [] # split_comma cs
      else (case split_comma cs of [] \<Rightarrow> [[c]] | w # ws \<Rightarrow> (c # w) # ws))"

text \<open>\<open>base64Image.split(',')[1] || base64Image\<close>\<close>

definition cleanBase64 :: "string \<Rightarrow> string" where
  "cleanBase64 base64Image =
     (case split_comma base64Image of
        _ # second # _ \<Rightarrow> if second = [] then base64Image else second
      | _ \<Rightarrow> base64Image)"

text \<open>
  \<open>String.prototype.trim\<close> is a library function and a parameter of the model, \<open>trim\<close>:
  nothing proved below depends on which characters it removes.
\<close>

definition caption_prompt :: string where
  "caption_prompt = ''Analyze the facial expression and mood in this photo. Based on that, write a very short, heartwarming, or funny handwritten-style caption (max 6 words) for a polaroid. If they are smiling, be happy. If silly, be funny. Do not use quotes.''"

definition generatePhotoCaption ::
  "(string \<Rightarrow> string) \<Rightarrow> gemini \<Rightarrow> string \<Rightarrow> string outcome" where
  "generatePhotoCaption trim g base64Image =
     (if API_KEY g = [] then Returns ''Memories captured...''
      else try_catch
        (case caption_request g (cleanBase64 base64Image) caption_prompt of
           Throws \<Rightarrow> Throws
         | Returns text \<Rightarrow>
             (case text of
                None \<Rightarrow> Returns ''A beautiful moment''
              | Some t \<Rightarrow> if trim t = [] then Returns ''A beautiful moment'' else Returns (trim t)))
        (Returns ''Snap!''))"

definition edit_prompt :: "string \<Rightarrow> string" where
  "edit_prompt prompt = ''Edit this image to match this style description: '' @ prompt @
     ''. Keep the main subject composition but change the artistic style. Output only the image.''"

text \<open>The loop over the parts: the first part with inline data decides.\<close>

fun first_image :: "part list \<Rightarrow> string option" where
  "first_image [] = None"
| "first_image (p # ps) =
     (case inlineData p of
        Some b \<Rightarrow> Some (''data:image/png;base64,'' @ (case data b of None \<Rightarrow> ''undefined'' | Some d \<Rightarrow> d))
      | None \<Rightarrow> first_image ps)"

definition editPhotoStyle :: "gemini \<Rightarrow> string \<Rightarrow> string \<Rightarrow> string option outcome" where
  "editPhotoStyle g base64Image prompt =
     (if API_KEY g = [] then Returns None
      else try_catch
        (case edit_request g (cleanBase64 base64Image) (edit_prompt prompt) of
           Throws \<Rightarrow> Throws
         | Returns parts \<Rightarrow> Returns (first_image parts))
        (Returns None))"

text \<open>
  \<open>handleCapture\<close> and \<open>handleEditPhoto\<close> as a whole, when no other update comes between
  their two updates. \<open>settled\<close> is how the awaited \<open>generatePhotoCaption(dataUrl)\<close> settled.
  \<open>photos\<close> is the collection the callback of \<open>handleEditPhoto\<close> has closed over; a
  rejected style-edit promise would leave the collection as the first update made it.
\<close>

definition handleCapture ::
  "capture_env \<Rightarrow> string outcome \<Rightarrow> string \<Rightarrow> geo option \<Rightarrow> photo list \<Rightarrow> photo list" where
  "handleCapture e settled url userLocation prev =
     handleCapture_settle (randomUUID e) settled (handleCapture_insert e url userLocation prev)"

definition handleEditPhoto ::
  "gemini \<Rightarrow> string \<Rightarrow> string \<Rightarrow> photo list \<Rightarrow> photo list \<Rightarrow> photo list" where
  "handleEditPhoto g i prompt photos prev =
     (let started = handleEditPhoto_begin i prev
      in case find (\<lambda>p. photo_id p = i) photos of
           None \<Rightarrow> started
         | Some ph \<Rightarrow>
             (case editPhotoStyle g (dataUrl ph) prompt of
                Throws \<Rightarrow> started
              | Returns newImageData \<Rightarrow> handleEditPhoto_finish i newImageData started))"

section \<open>Storage service\<close>

subsection \<open>Double-precision arithmetic\<close>

text \<open>
  The numbers of the program are IEEE 754 doubles. The resizing divides, multiplies and then
  truncates, so its rounding is modelled exactly. A non-negative double is \<open>Double m e\<close>,
  standing for \<open>m * 2 ^ e\<close>; a quotient or a product is rounded to 53 significant bits,
  to nearest, ties to even. Exponents are not bounded: the numbers that occur (quotients and
  products of image dimensions below \<open>2 ^ 32\<close>) lie far inside the normal range. Whole numbers
  below \<open>2 ^ 53\<close> are doubles as they are.
\<close>

text \<open>The number of binary digits of a number.\<close>

fun bits :: "nat \<Rightarrow> nat" where
  "bits n = (if n = 0 then 0 else Suc (bits (n div 2)))"

declare bits.simps [simp del]

text \<open>The quotient \<open>p / q\<close> rounded to the nearest whole number, a tie to the even one.\<close>

definition rne :: "nat \<Rightarrow> nat \<Rightarrow> nat" where
  "rne p q =
     (let f = p div q; r = p mod q
      in if 2 * r < q then f
         else if q < 2 * r then f + 1
         else if even f then f else f + 1)"

datatype double = Double nat int


text \<open>\<open>m * 2 ^ e\<close> rounded to 53 significant bits.\<close>

definition round53 :: "nat \<Rightarrow> int \<Rightarrow> double" where
  "round53 m e =
     (if bits m \<le> 53 then Double m e
      else (let s = bits m - 53 in Double (rne m (2 ^ s)) (e + int s)))"

text \<open>
  The double \<open>a / b\<close> of two whole numbers: \<open>e\<close> is the exponent of the quotient
  (\<open>2 ^ e \<le> a / b < 2 ^ (e + 1)\<close>), and the quotient is rounded at the bit \<open>e - 52\<close>. The
  divisor is never 0 where the program divides: it is a dimension greater than \<open>maxWidth\<close>.
\<close>

definition fdiv :: "nat \<Rightarrow> nat \<Rightarrow> double" where
  "fdiv a b =
     (if a = 0 then Double 0 0
      else (let k = int (bits a) - int (bits b);
                e = (if b * 2 ^ bits a \<le> a * 2 ^ bits b then k else k - 1);
                t = 52 - e
            in if 0 \<le> t then Double (rne (a * 2 ^ nat t) b) (- t)
               else Double (rne a (b * 2 ^ nat (- t))) (- t)))"

text \<open>The double product of a whole number and a double.\<close>

fun fmul :: "nat \<Rightarrow> double \<Rightarrow> double" where
  "fmul h (Double m e) = round53 (h * m) e"

text \<open>The whole part of a double.\<close>

fun whole_part :: "double \<Rightarrow> nat" where
  "whole_part (Double m e) = (if 0 \<le> e then m * 2 ^ nat e else m div 2 ^ nat (- e))"

subsection \<open>Image compression helper\<close>

text \<open>
  The browser is a parameter: \<open>image_load\<close> gives the width and height of the decoded
  image (\<open>onload\<close>) or \<open>None\<close> (\<open>onerror\<close>), \<open>getContext2d\<close> tells whether the canvas
  yields a 2D context, and \<open>jpeg_base64\<close> is the JPEG encoder behind \<open>toDataURL\<close>.
  \<open>maxWidth\<close> is a whole number of pixels, as its only value in the program (800) is;
  \<open>quality\<close> is a double, and its only value in the program, 0.6, is \<open>fdiv 3 5\<close>.
\<close>

record canvas =
  canvas_width :: nat
  canvas_height :: nat
  drawn :: "(string \<times> double \<times> double) option"


text \<open>
  The width and height computed by the two nested conditionals;
  \<open>height *= maxWidth / width\<close> is the double product of \<open>height\<close> and the double quotient.
\<close>

definition scaled_size :: "nat \<Rightarrow> nat \<Rightarrow> nat \<Rightarrow> double \<times> double" where
  "scaled_size w h maxWidth =
     (if w > h
      then (if w > maxWidth
            then (Double maxWidth 0, fmul h (fdiv maxWidth w))
            else (Double w 0, Double h 0))
      else (if h > maxWidth
            then (fmul w (fdiv maxWidth h), Double maxWidth 0)
            else (Double w 0, Double h 0)))"

text \<open>
  Assigning a number to \<open>canvas.width\<close> or \<open>canvas.height\<close> (an \<open>unsigned long\<close>)
  truncates it and reduces it modulo \<open>2 ^ 32\<close>.
\<close>

definition to_unsigned_long :: "double \<Rightarrow> nat" where
  "to_unsigned_long d = whole_part d mod 2 ^ 32"

definition sized_canvas :: "nat \<Rightarrow> nat \<Rightarrow> nat \<Rightarrow> canvas" where
  "sized_canvas w h maxWidth =
     (case scaled_size w h maxWidth of (width, height) \<Rightarrow>
        \<lparr> canvas_width = to_unsigned_long width, canvas_height = to_unsigned_long height,
          drawn = None \<rparr>)"




subsection \<open>Local storage and the remote collection\<close>

text \<open>
  \<open>localStorage.getItem\<close>, \<open>JSON.parse\<close> (at the type \<open>Photo[]\<close> the service declares
  for it) and the query on the remote collection are parameters, each of which may throw.
  \<open>db\<close> tells whether the remote client was initialised, \<open>getDocs\<close> gives the documents
  of the query as pairs of \<open>doc.id\<close> and \<open>doc.data()\<close>, and \<open>load_time\<close> is the value of
  \<open>Date.now()\<close> when the module was loaded.
\<close>

record storage =
  getItem :: "string \<Rightarrow> string option outcome"
  JSON_parse :: "string \<Rightarrow> photo list outcome"
  db :: bool
  getDocs :: "(string \<times> photo) list outcome"
  load_time :: real

definition USER_STORAGE_KEY :: string where
  "USER_STORAGE_KEY = ''retrosnap_user_photos_v1''"

definition SHARED_POOL_KEY :: string where
  "SHARED_POOL_KEY = ''retrosnap_shared_pool_v1''"

text \<open>The captions end in an emoji, written here as the bytes of its UTF-8 encoding.\<close>

definition INITIAL_COMMUNITY_PHOTOS :: "real \<Rightarrow> photo list" where
  "INITIAL_COMMUNITY_PHOTOS now =
   [ \<lparr> photo_id = ''case-tokyo'',
       dataUrl = ''https://images.unsplash.com/photo-1540959733332-eab4deabeeaf?q=80&w=600&auto=format&fit=crop'',
       timestamp = now, pos_x = 0, pos_y = 0, rotation = - 2,
       caption = Some (''Neon nights '' @ [CHR 0xF0, CHR 0x9F, CHR 0x8D, CHR 0x9C]),
       isGeneratingCaption = None, isPublic = Some True, developmentProgress = Some 100,
       location = Some \<lparr> lat = 35.6938, lng = 139.7035, city = Some ''Tokyo'', country = None \<rparr> \<rparr>,
     \<lparr> photo_id = ''case-paris'',
       dataUrl = ''https://images.unsplash.com/photo-1502602898657-3e91760cbb34?q=80&w=600&auto=format&fit=crop'',
       timestamp = now, pos_x = 0, pos_y = 0, rotation = 3,
       caption = Some (''Bonjour Paris '' @ [CHR 0xE2, CHR 0x98, CHR 0x95]),
       isGeneratingCaption = None, isPublic = Some True, developmentProgress = Some 100,
       location = Some \<lparr> lat = 48.8584, lng = 2.2945, city = Some ''Paris'', country = None \<rparr> \<rparr>,
     \<lparr> photo_id = ''case-iceland'',
       dataUrl = ''https://images.unsplash.com/photo-1476610182048-b716b8518aae?q=80&w=600&auto=format&fit=crop'',
       timestamp = now, pos_x = 0, pos_y = 0, rotation = 4,
       caption = Some (''Ice & Fire '' @ [CHR 0xF0, CHR 0x9F, CHR 0x8C, CHR 0x8A]),
       isGeneratingCaption = None, isPublic = Some True, developmentProgress = Some 100,
       location = Some \<lparr> lat = 64.9631, lng = - 19.0208, city = Some ''Iceland'', country = None \<rparr> \<rparr>,
     \<lparr> photo_id = ''case-rio'',
       dataUrl = ''https://images.unsplash.com/photo-1483729558449-99ef09a8c325?q=80&w=600&auto=format&fit=crop'',
       timestamp = now, pos_x = 0, pos_y = 0, rotation = 2,
       caption = Some (''Carnival! '' @ [CHR 0xF0, CHR 0x9F, CHR 0x92, CHR 0x83]),
       isGeneratingCaption = None, isPublic = Some True, developmentProgress = Some 100,
       location = Some \<lparr> lat = - 22.9519, lng = - 43.2105, city = Some ''Rio'', country = None \<rparr> \<rparr> ]"

definition getUserPhotos :: "storage \<Rightarrow> photo list outcome" where
  "getUserPhotos s =
     try_catch
       (case getItem s USER_STORAGE_KEY of
          Throws \<Rightarrow> Throws
        | Returns stored \<Rightarrow>
            (case stored of
               None \<Rightarrow> Returns []
             | Some text \<Rightarrow> if text = [] then Returns [] else JSON_parse s text))
       (Returns [])"

definition getSharedPoolLocal :: "storage \<Rightarrow> photo list outcome" where
  "getSharedPoolLocal s =
     try_catch
       (case getItem s SHARED_POOL_KEY of
          Throws \<Rightarrow> Throws
        | Returns stored \<Rightarrow>
            (case stored of
               None \<Rightarrow> Returns []
             | Some text \<Rightarrow> if text = [] then Returns [] else JSON_parse s text))
       (Returns [])"

text \<open>
  \<open>JSON.parse\<close> returns a value of type \<open>any\<close>, which \<open>getUserPhotos\<close> hands on as a
  \<open>Photo[]\<close> without looking at it. \<open>getUserPhotos\<close> above is the function at the type it
  declares. \<open>getUserPhotos_untyped\<close> is the same function with the parser at the type of
  all JSON values, to say what it returns for every stored text.
\<close>

datatype js_value =
  JNull | JBoolean bool | JNumber real | JString string
  | JArray "js_value list" | JObject "(string \<times> js_value) list"

record runtime_storage =
  getItem_rt :: "string \<Rightarrow> string option outcome"
  JSON_parse_rt :: "string \<Rightarrow> js_value outcome"

definition getUserPhotos_untyped :: "runtime_storage \<Rightarrow> js_value outcome" where
  "getUserPhotos_untyped s =
     try_catch
       (case getItem_rt s USER_STORAGE_KEY of
          Throws \<Rightarrow> Throws
        | Returns stored \<Rightarrow>
            (case stored of
               None \<Rightarrow> Returns (JArray [])
             | Some text \<Rightarrow> if text = [] then Returns (JArray []) else JSON_parse_rt s text))
       (Returns (JArray []))"

text \<open>The outcome of a call whose value is seen through \<open>f\<close>.\<close>

definition map_outcome :: "('a \<Rightarrow> 'b) \<Rightarrow> 'a outcome \<Rightarrow> 'b outcome" where
  "map_outcome f r = (case r of Throws \<Rightarrow> Throws | Returns v \<Rightarrow> Returns (f v))"

text \<open>
  A JavaScript \<open>Map\<close> is the list of its entries in insertion order: \<open>set\<close> replaces the
  value of a key where it stands and appends a new key, \<open>new Map(entries)\<close> sets the
  entries one after the other, \<open>values()\<close> lists the values in that order.
\<close>

fun Map_set :: "('k \<times> 'v) list \<Rightarrow> 'k \<Rightarrow> 'v \<Rightarrow> ('k \<times> 'v) list" where
  "Map_set [] k v = [(k, v)]"
| "Map_set ((k', v') # m) k v =
     (if k' = k then (k, v) # m else (k', v') # Map_set m k v)"

definition new_Map :: "('k \<times> 'v) list \<Rightarrow> ('k \<times> 'v) list" where
  "new_Map entries = foldl (\<lambda>m (k, v). Map_set m k v) [] entries"

definition Map_values :: "('k \<times> 'v) list \<Rightarrow> 'v list" where
  "Map_values m = map snd m"

text \<open>
  \<open>{ id: doc.id, ...doc.data() }\<close>: the data are spread after the \<open>id\<close> property, so the
  \<open>id\<close> they carry replaces the document's.
\<close>

definition doc_photo :: "string \<times> photo \<Rightarrow> photo" where
  "doc_photo d = (case d of (doc_id, doc_data) \<Rightarrow> doc_data)"

definition and_then :: "'a outcome \<Rightarrow> ('a \<Rightarrow> 'b outcome) \<Rightarrow> 'b outcome" where
  "and_then r f = (case r of Throws \<Rightarrow> Throws | Returns v \<Rightarrow> f v)"

text \<open>Steps 1 and 2: the photos fetched from the remote collection, or the fall-back.\<close>

definition fetchRemote :: "storage \<Rightarrow> photo list" where
  "fetchRemote s =
     (if db s
      then (case getDocs s of Throws \<Rightarrow> [] | Returns docs \<Rightarrow> map doc_photo docs)
      else [])"

definition remoteOrFallback :: "photo list \<Rightarrow> storage \<Rightarrow> photo list outcome" where
  "remoteOrFallback seed s =
     (let remotePhotos = fetchRemote s
      in if length remotePhotos = 0
         then and_then (getSharedPoolLocal s) (\<lambda>pool. Returns (seed @ pool))
         else Returns remotePhotos)"

text \<open>Step 3 and the removal of duplicates by \<open>id\<close>.\<close>

definition dedupById :: "photo list \<Rightarrow> photo list \<Rightarrow> photo list" where
  "dedupById remotePhotos userPublic =
     (let galleryMap = new_Map (map (\<lambda>p. (photo_id p, p)) remotePhotos);
          galleryMap' = foldl (\<lambda>m p. Map_set m (photo_id p) p) galleryMap userPublic
      in Map_values galleryMap')"

text \<open>\<open>getGlobalGallery\<close>, with the curated photos as a parameter and as the program has them.\<close>

definition getGlobalGallery_with :: "photo list \<Rightarrow> storage \<Rightarrow> photo list outcome" where
  "getGlobalGallery_with seed s =
     and_then (remoteOrFallback seed s) (\<lambda>remotePhotos.
     and_then (getUserPhotos s) (\<lambda>userPhotos.
       Returns (dedupById remotePhotos (filter (\<lambda>p. truthy (isPublic p)) userPhotos))))"

definition getGlobalGallery :: "storage \<Rightarrow> photo list outcome" where
  "getGlobalGallery s = getGlobalGallery_with (INITIAL_COMMUNITY_PHOTOS (load_time s)) s"

section \<open>The polaroid component (development progress)\<close>

text \<open>
  The state of one \<open>DraggablePolaroid\<close>: the state variable \<open>developmentProgress\<close>
  (named \<open>developmentProgress_state\<close> here), the ref that an effect keeps equal to it after
  every change, the dragging flag and the last pointer position.
\<close>

record polaroid =
  developmentProgress_state :: real
  progressRef :: real
  isDragging :: bool
  lastPos :: "real \<times> real"

text \<open>\<open>useState(photo.developmentProgress || 0)\<close>\<close>

definition mount :: "photo \<Rightarrow> polaroid" where
  "mount ph =
     (let initial = (case developmentProgress ph of None \<Rightarrow> 0 | Some v \<Rightarrow> if v = 0 then 0 else v)
      in \<lparr> developmentProgress_state = initial, progressRef = initial,
           isDragging = False, lastPos = (0, 0) \<rparr>)"

text \<open>\<open>setDevelopmentProgress(prev => f prev)\<close>, followed by the effect that copies it to the ref.\<close>

definition setDevelopmentProgress :: "(real \<Rightarrow> real) \<Rightarrow> polaroid \<Rightarrow> polaroid" where
  "setDevelopmentProgress f c =
     (let v = f (developmentProgress_state c)
      in c\<lparr>developmentProgress_state := v, progressRef := v\<rparr>)"

text \<open>
  The events of the component: a tick of the 100 ms timer, \<open>handleStart\<close> past its guards,
  \<open>handleMove\<close> with the pointer position, and \<open>handleEnd\<close>.
\<close>

datatype polaroid_event =
  TimerTick | HandleStart real real | HandleMove real real | HandleEnd

fun polaroid_step :: "polaroid \<Rightarrow> polaroid_event \<Rightarrow> polaroid" where
  "polaroid_step c TimerTick = setDevelopmentProgress (\<lambda>prev. min (prev + 0.5) 100) c"
| "polaroid_step c (HandleStart clientX clientY) =
     c\<lparr>isDragging := True, lastPos := (clientX, clientY)\<rparr>"
| "polaroid_step c (HandleMove clientX clientY) =
     (if \<not> isDragging c then c
      else (let dx = \<bar>clientX - fst (lastPos c)\<bar>;
                dy = \<bar>clientY - snd (lastPos c)\<bar>;
                speed = dx + dy;
                c' = (if speed > 15 \<and> developmentProgress_state c < 100
                      then setDevelopmentProgress (\<lambda>prev. min (prev + 2) 100) c else c)
            in c'\<lparr>lastPos := (clientX, clientY)\<rparr>))"
| "polaroid_step c HandleEnd = c\<lparr>isDragging := False\<rparr>"

text \<open>The states a component goes through on a sequence of events, the first one included.\<close>

fun polaroid_run :: "polaroid \<Rightarrow> polaroid_event list \<Rightarrow> polaroid list" where
  "polaroid_run c [] = [c]"
| "polaroid_run c (e # es) = c # polaroid_run (polaroid_step c e) es"

text \<open>The clean-up of the timer effect: \<open>onUpdateProgress(photo.id, progressRef.current)\<close>.\<close>

definition unmount :: "string \<Rightarrow> polaroid \<Rightarrow> photo list \<Rightarrow> photo list" where
  "unmount i c photos = updatePhotoProgress i (progressRef c) photos"

section \<open>Notions used in the proofs about the gallery\<close>

text \<open>
  Setting the photos of a list one after the other, each under its own identifier, as both
  \<open>new Map(remotePhotos.map(p => [p.id, p]))\<close> and the \<open>forEach\<close> over the user's public
  photos do; and the property of a map that every photo is stored under its own identifier.
\<close>

definition set_all :: "(string \<times> photo) list \<Rightarrow> photo list \<Rightarrow> (string \<times> photo) list" where
  "set_all m ps = foldl (\<lambda>m p. Map_set m (photo_id p) p) m ps"

definition keyed :: "(string \<times> photo) list \<Rightarrow> bool" where
  "keyed m = (\<forall>e \<in> set m. photo_id (snd e) = fst e)"

section \<open>Example values\<close>

text \<open>A private photo without a location, and a private photo taken on the equator.\<close>

definition example_photo :: photo where
  "example_photo =
     \<lparr> photo_id = ''p1'', dataUrl = ''data:image/jpeg;base64,AAAA'', timestamp = 1000,
       pos_x = 40, pos_y = 200, rotation = 1, caption = Some ''Hi'',
       isGeneratingCaption = Some False, isPublic = Some False,
       developmentProgress = Some 10, location = None \<rparr>"

definition equator_geo :: geo where
  "equator_geo = \<lparr> lat = 0, lng = 9.45, city = Some ''Libreville'', country = None \<rparr>"

definition equator_photo :: photo where
  "equator_photo = example_photo\<lparr>photo_id := ''p2'', location := Some equator_geo\<rparr>"

text \<open>A stream of random draws that are all one quarter.\<close>

definition example_rnd :: "nat \<Rightarrow> real" where
  "example_rnd n = 1 / 4"

text \<open>A configured service whose provider fails on every request.\<close>

definition failing_gemini :: gemini where
  "failing_gemini =
     \<lparr> API_KEY = ''key'', caption_request = (\<lambda>img text. Throws),
       edit_request = (\<lambda>img text. Throws) \<rparr>"

definition example_capture_env :: capture_env where
  "example_capture_env =
     \<lparr> randomUUID = ''p3'', random_draw = 1 / 2, innerWidth = 1024, innerHeight = 768,
       date_now = 2000 \<rparr>"



text \<open>
  A device without a remote client whose user has shared one photo, stored under the
  identifier of one of the curated photos. The stored text is the JSON of the list of that
  photo, and the parser is given on that text.
\<close>

definition shared_photo :: photo where
  "shared_photo =
     example_photo\<lparr>photo_id := ''case-rio'', isPublic := Some True,
       location := Some \<lparr> lat = 48.8584, lng = 2.2945, city = Some ''Paris'', country = None \<rparr>\<rparr>"

definition shared_json :: string where
  \<open>shared_json = ''[{"id":"case-rio","dataUrl":"data:image/jpeg;base64,AAAA","timestamp":1000,"x":40,"y":200,"rotation":1,"caption":"Hi","isGeneratingCaption":false,"isPublic":true,"location":{"lat":48.8584,"lng":2.2945,"city":"Paris"},"developmentProgress":10}]''\<close>

definition example_storage :: storage where
  "example_storage =
     \<lparr> getItem = (\<lambda>key. if key = USER_STORAGE_KEY then Returns (Some shared_json)
                         else Returns None),
       JSON_parse = (\<lambda>text. if text = shared_json then Returns [shared_photo] else Throws),
       db = False, getDocs = Throws, load_time = 5000 \<rparr>"

text \<open>
  A storage whose key for the user's photos holds the text \<open>123\<close>, which is JSON but not
  the JSON of a list; the parser is given on that text and on \<open>null\<close>.
\<close>

definition number_storage :: runtime_storage where
  "number_storage =
     \<lparr> getItem_rt = (\<lambda>key. if key = USER_STORAGE_KEY then Returns (Some ''123'')
                            else Returns None),
       JSON_parse_rt = (\<lambda>text. if text = ''123'' then Returns (JNumber 123)
                               else if text = ''null'' then Returns JNull
                               else Throws) \<rparr>"

section \<open>Sharing a photo\<close>

lemma toggle_map_fst_Cons:
  "fst (toggle_map i rnd n (p # ps)) =
     (if photo_id p = i
      then fst (toggle_photo rnd n p) # fst (toggle_map i rnd (fst (snd (toggle_photo rnd n p))) ps)
      else p # fst (toggle_map i rnd n ps))"
  by (simp split: prod.splits)

lemma toggle_map_length: "length (fst (toggle_map i rnd n ps)) = length ps"
proof (induction ps arbitrary: n)
  case Nil
  show ?case by simp
next
  case (Cons p ps)
  show ?case unfolding toggle_map_fst_Cons by (simp add: Cons.IH)
qed

lemma toggle_map_nth:
  "k < length ps \<Longrightarrow>
     (photo_id (ps ! k) = i \<longrightarrow> (\<exists>m. fst (toggle_map i rnd n ps) ! k = fst (toggle_photo rnd m (ps ! k))))
   \<and> (photo_id (ps ! k) \<noteq> i \<longrightarrow> fst (toggle_map i rnd n ps) ! k = ps ! k)"
proof (induction ps arbitrary: n k)
  case Nil
  then show ?case by simp
next
  case (Cons p ps)
  show ?case
  proof (cases k)
    case 0
    show ?thesis unfolding toggle_map_fst_Cons 0 by auto
  next
    case (Suc j)
    with Cons.prems have j: "j < length ps" by simp
    show ?thesis unfolding toggle_map_fst_Cons Suc
      using Cons.IH [OF j] by simp
  qed
qed

lemma toggle_map_unknown: "i \<notin> photo_id ` set ps \<Longrightarrow> toggle_map i rnd n ps = (ps, n, [])"
  by (induction ps arbitrary: n) auto

lemma toggle_photo_fst:
  "fst (toggle_photo rnd m p) =
     p\<lparr>isPublic := Some (\<not> truthy (isPublic p)),
       location := (if \<not> truthy (isPublic p) \<and> lacks_latitude (location p)
                    then Some (placeholder (rnd m) (rnd (m + 1))) else location p)\<rparr>"
  by (simp add: toggle_photo_def Let_def)

text \<open>
  Claim C1. Whenever \<open>handleToggleShare\<close> has taken a photo of the collection from not
  public to public, that photo has a location afterwards, and a location carries a latitude
  and a longitude: it is the placeholder, built from two random draws, when the photo had no
  location or a falsy latitude, and the photo's own location (with a latitude other than
  zero) otherwise.
\<close>

theorem toggleShare_public_has_location:
  assumes "k < length prev"
    and "\<not> truthy (isPublic (prev ! k))"
    and "truthy (isPublic (toggled (handleToggleShare i rnd prev) ! k))"
  shows "\<exists>l. location (toggled (handleToggleShare i rnd prev) ! k) = Some l
           \<and> (lacks_latitude (location (prev ! k)) \<longrightarrow> (\<exists>m. l = placeholder (rnd m) (rnd (m + 1))))
           \<and> (\<not> lacks_latitude (location (prev ! k)) \<longrightarrow> location (prev ! k) = Some l \<and> lat l \<noteq> 0)"
proof -
  let ?out = "toggled (handleToggleShare i rnd prev)"
  have out: "?out = fst (toggle_map i rnd 0 prev)"
    by (simp add: toggled_def handleToggleShare_def)
  have same: "photo_id (prev ! k) = i"
  proof (rule ccontr)
    assume "photo_id (prev ! k) \<noteq> i"
    with toggle_map_nth [OF assms(1), of i rnd 0] have "?out ! k = prev ! k"
      by (simp add: out)
    with assms(2,3) show False by simp
  qed
  with toggle_map_nth [OF assms(1), of i rnd 0]
  obtain m where m: "?out ! k = fst (toggle_photo rnd m (prev ! k))"
    by (auto simp: out)
  show ?thesis
  proof (cases "lacks_latitude (location (prev ! k))")
    case True
    with m assms(2) show ?thesis
      by (auto simp: toggle_photo_fst)
  next
    case False
    then obtain l where "location (prev ! k) = Some l" "lat l \<noteq> 0"
      by (auto simp: lacks_latitude_def split: option.splits)
    with m False show ?thesis
      by (simp add: toggle_photo_fst)
  qed
qed

text \<open>The theorem for the photo without a location, shared with every draw one quarter.\<close>

theorem toggleShare_public_has_location_witness:
  "0 < length [example_photo]
   \<and> \<not> truthy (isPublic ([example_photo] ! 0))
   \<and> truthy (isPublic (toggled (handleToggleShare ''p1'' example_rnd [example_photo]) ! 0))
   \<and> location (toggled (handleToggleShare ''p1'' example_rnd [example_photo]) ! 0)
       = Some (placeholder (1 / 4) (1 / 4))"
proof -
  have h1: "0 < length [example_photo]" by simp
  have h2: "\<not> truthy (isPublic ([example_photo] ! 0))"
    by (simp add: example_photo_def truthy_def)
  have h3: "truthy (isPublic (toggled (handleToggleShare ''p1'' example_rnd [example_photo]) ! 0))"
    by (simp add: toggled_def handleToggleShare_def toggle_photo_def example_photo_def
        truthy_def Let_def)
  have h4: "lacks_latitude (location ([example_photo] ! 0))"
    by (simp add: example_photo_def lacks_latitude_def)
  have r: "example_rnd m = 1 / 4" for m by (simp add: example_rnd_def)
  from toggleShare_public_has_location [OF h1 h2 h3]
  obtain l where l: "location (toggled (handleToggleShare ''p1'' example_rnd [example_photo]) ! 0)
        = Some l"
    and syn: "lacks_latitude (location ([example_photo] ! 0)) \<longrightarrow>
        (\<exists>m. l = placeholder (example_rnd m) (example_rnd (m + 1)))"
    by blast
  from syn h4 obtain m where "l = placeholder (example_rnd m) (example_rnd (m + 1))"
    by blast
  then have "l = placeholder (1 / 4) (1 / 4)" by (simp only: r)
  with l have "location (toggled (handleToggleShare ''p1'' example_rnd [example_photo]) ! 0)
       = Some (placeholder (1 / 4) (1 / 4))"
    by simp
  with h1 h2 h3 show ?thesis by blast
qed

text \<open>
  Claim C10. When a private photo whose location has latitude exactly 0 is shared, its
  location is replaced by the placeholder: a different location, within half a degree of
  (35.6762, 139.6503) in both coordinates for random draws in the unit interval, with the
  city \<open>Unknown\<close>.
\<close>

theorem toggleShare_equator_replaced:
  assumes "k < length prev"
    and "photo_id (prev ! k) = i"
    and "\<not> truthy (isPublic (prev ! k))"
    and "location (prev ! k) = Some l"
    and "lat l = 0"
    and "\<forall>n. 0 \<le> rnd n \<and> rnd n < 1"
  shows "\<exists>m. isPublic (toggled (handleToggleShare i rnd prev) ! k) = Some True
           \<and> location (toggled (handleToggleShare i rnd prev) ! k)
               = Some (placeholder (rnd m) (rnd (m + 1)))
           \<and> placeholder (rnd m) (rnd (m + 1)) \<noteq> l
           \<and> \<bar>lat (placeholder (rnd m) (rnd (m + 1))) - 35.6762\<bar> \<le> 0.5
           \<and> \<bar>lng (placeholder (rnd m) (rnd (m + 1))) - 139.6503\<bar> \<le> 0.5
           \<and> city (placeholder (rnd m) (rnd (m + 1))) = Some ''Unknown''"
proof -
  let ?out = "toggled (handleToggleShare i rnd prev)"
  have out: "?out = fst (toggle_map i rnd 0 prev)"
    by (simp add: toggled_def handleToggleShare_def)
  from toggle_map_nth [OF assms(1), of i rnd 0] assms(2)
  obtain m where m: "?out ! k = fst (toggle_photo rnd m (prev ! k))"
    by (auto simp: out)
  have lacks: "lacks_latitude (location (prev ! k))"
    using assms(4,5) by (simp add: lacks_latitude_def)
  have r1: "0 \<le> rnd m" "rnd m < 1" and r2: "0 \<le> rnd (m + 1)" "rnd (m + 1) < 1"
    using assms(6) by auto
  have lat_pos: "lat (placeholder (rnd m) (rnd (m + 1))) > 0"
    using r1 by (simp add: placeholder_def)
  have ne: "placeholder (rnd m) (rnd (m + 1)) \<noteq> l"
    using lat_pos assms(5) by auto
  have near1: "\<bar>lat (placeholder (rnd m) (rnd (m + 1))) - 35.6762\<bar> \<le> 0.5"
  proof -
    have "lat (placeholder (rnd m) (rnd (m + 1))) - 35.6762 = rnd m - 1 / 2"
      by (simp add: placeholder_def)
    moreover have "\<bar>rnd m - 1 / 2\<bar> \<le> 1 / 2" using r1 by linarith
    ultimately show ?thesis by simp
  qed
  have near2: "\<bar>lng (placeholder (rnd m) (rnd (m + 1))) - 139.6503\<bar> \<le> 0.5"
  proof -
    have "lng (placeholder (rnd m) (rnd (m + 1))) - 139.6503 = rnd (m + 1) - 1 / 2"
      by (simp add: placeholder_def)
    moreover have "\<bar>rnd (m + 1) - 1 / 2\<bar> \<le> 1 / 2" using r2 by linarith
    ultimately show ?thesis by simp
  qed
  have c: "city (placeholder (rnd m) (rnd (m + 1))) = Some ''Unknown''"
    by (simp add: placeholder_def)
  from m lacks assms(3) have
    "isPublic (?out ! k) = Some True"
    "location (?out ! k) = Some (placeholder (rnd m) (rnd (m + 1)))"
    by (simp_all add: toggle_photo_fst)
  with ne near1 near2 c show ?thesis by blast
qed

text \<open>The theorem for the photo on the equator.\<close>

theorem toggleShare_equator_replaced_witness:
  "photo_id ([example_photo, equator_photo] ! 1) = ''p2''
   \<and> \<not> truthy (isPublic ([example_photo, equator_photo] ! 1))
   \<and> location ([example_photo, equator_photo] ! 1) = Some equator_geo
   \<and> lat equator_geo = 0
   \<and> (\<forall>n. 0 \<le> example_rnd n \<and> example_rnd n < 1)
   \<and> location (toggled (handleToggleShare ''p2'' example_rnd [example_photo, equator_photo]) ! 1)
       = Some (placeholder (1 / 4) (1 / 4))
   \<and> placeholder (1 / 4) (1 / 4) \<noteq> equator_geo"
proof -
  have h1: "1 < length [example_photo, equator_photo]" by simp
  have h2: "photo_id ([example_photo, equator_photo] ! 1) = ''p2''"
    by (simp add: equator_photo_def)
  have h3: "\<not> truthy (isPublic ([example_photo, equator_photo] ! 1))"
    by (simp add: equator_photo_def example_photo_def truthy_def)
  have h4: "location ([example_photo, equator_photo] ! 1) = Some equator_geo"
    by (simp add: equator_photo_def)
  have h5: "lat equator_geo = 0" by (simp add: equator_geo_def)
  have h6: "\<forall>n. 0 \<le> example_rnd n \<and> example_rnd n < 1" by (simp add: example_rnd_def)
  have r: "example_rnd m = 1 / 4" for m by (simp add: example_rnd_def)
  from toggleShare_equator_replaced [OF h1 h2 h3 h4 h5 h6]
  obtain m where
    loc: "location (toggled (handleToggleShare ''p2'' example_rnd [example_photo, equator_photo]) ! 1)
        = Some (placeholder (example_rnd m) (example_rnd (m + 1)))"
    and ne: "placeholder (example_rnd m) (example_rnd (m + 1)) \<noteq> equator_geo"
    by blast
  have p: "placeholder (example_rnd m) (example_rnd (m + 1)) = placeholder (1 / 4) (1 / 4)"
    by (simp only: r)
  note loc' = loc [unfolded p]
  note ne' = ne [unfolded p]
  show ?thesis by (intro conjI h2 h3 h4 h5 h6 loc' ne')
qed

section \<open>Operations on an identifier that is not in the collection\<close>

lemma map_unknown_id:
  "i \<notin> photo_id ` set ps \<Longrightarrow> map (\<lambda>p. if photo_id p = i then f p else p) ps = ps"
  by (induction ps) auto

lemma filter_unknown_id:
  "i \<notin> photo_id ` set ps \<Longrightarrow> filter (\<lambda>p. photo_id p \<noteq> i) ps = ps"
  by (induction ps) auto

lemma editPhotoStyle_returns: "\<exists>r. editPhotoStyle g d prompt = Returns r"
  by (simp add: editPhotoStyle_def try_catch_def split: outcome.splits)

lemma handleEditPhoto_cases:
  "handleEditPhoto g i prompt photos prev = handleEditPhoto_begin i prev
   \<or> (\<exists>r. handleEditPhoto g i prompt photos prev
            = handleEditPhoto_finish i r (handleEditPhoto_begin i prev))"
  by (auto simp: handleEditPhoto_def Let_def split: option.splits outcome.splits)

text \<open>
  Claim C9. For an identifier that no photo of the collection has, \<open>updatePhotoPosition\<close>,
  \<open>updatePhotoProgress\<close>, \<open>deletePhoto\<close>, \<open>handleEditPhoto\<close> and \<open>handleToggleShare\<close>
  return the collection as it was; the style-edit call, the one operation among them that
  could fail, always returns, and nothing is uploaded.
\<close>

theorem unknown_id_is_noop:
  assumes "i \<notin> photo_id ` set prev"
  shows "updatePhotoPosition i x y prev = prev
       \<and> updatePhotoProgress i progress prev = prev
       \<and> deletePhoto i prev = prev
       \<and> handleEditPhoto g i prompt photos prev = prev
       \<and> (\<exists>r. editPhotoStyle g d prompt = Returns r)
       \<and> toggled (handleToggleShare i rnd prev) = prev
       \<and> uploadedToCloud (handleToggleShare i rnd prev) = []"
proof -
  have b: "handleEditPhoto_begin i prev = prev"
    using assms by (simp add: handleEditPhoto_begin_def map_unknown_id)
  have f: "handleEditPhoto_finish i r prev = prev" for r
    using assms by (simp add: handleEditPhoto_finish_def map_unknown_id)
  have e: "handleEditPhoto g i prompt photos prev = prev"
    using handleEditPhoto_cases [of g i prompt photos prev] b f by auto
  have t: "handleToggleShare i rnd prev = (prev, 0, [])"
    using assms by (simp add: handleToggleShare_def toggle_map_unknown)
  show ?thesis
    using assms e t editPhotoStyle_returns [of g d prompt]
    by (simp add: updatePhotoPosition_def updatePhotoProgress_def deletePhoto_def
        map_unknown_id filter_unknown_id toggled_def uploadedToCloud_def)
qed

text \<open>The theorem for an identifier that neither example photo has.\<close>

theorem unknown_id_is_noop_witness:
  "''zz'' \<notin> photo_id ` set [example_photo, equator_photo]
   \<and> updatePhotoPosition ''zz'' 1 2 [example_photo, equator_photo] = [example_photo, equator_photo]
   \<and> updatePhotoProgress ''zz'' 50 [example_photo, equator_photo] = [example_photo, equator_photo]
   \<and> deletePhoto ''zz'' [example_photo, equator_photo] = [example_photo, equator_photo]
   \<and> handleEditPhoto failing_gemini ''zz'' ''sketch'' [example_photo, equator_photo]
        [example_photo, equator_photo] = [example_photo, equator_photo]
   \<and> (\<exists>r. editPhotoStyle failing_gemini [] ''sketch'' = Returns r)
   \<and> toggled (handleToggleShare ''zz'' example_rnd [example_photo, equator_photo])
        = [example_photo, equator_photo]
   \<and> uploadedToCloud (handleToggleShare ''zz'' example_rnd [example_photo, equator_photo]) = []"
proof -
  have h: "''zz'' \<notin> photo_id ` set [example_photo, equator_photo]"
    by (simp add: example_photo_def equator_photo_def)
  note T = unknown_id_is_noop [OF h, of 1 2 50 failing_gemini "''sketch''"
      "[example_photo, equator_photo]" "[]" example_rnd]
  show ?thesis by (rule conjI [OF h T])
qed

section \<open>Style edits\<close>

lemma begin_nth:
  "k < length prev \<Longrightarrow> handleEditPhoto_begin i prev ! k =
     (if photo_id (prev ! k) = i then (prev ! k)\<lparr>isGeneratingCaption := Some True\<rparr> else prev ! k)"
  by (simp add: handleEditPhoto_begin_def)

lemma finish_nth:
  "k < length cur \<Longrightarrow> handleEditPhoto_finish i r cur ! k =
     (if photo_id (cur ! k) = i
      then (cur ! k)\<lparr>dataUrl := or_dataUrl r (dataUrl (cur ! k)), isGeneratingCaption := Some False\<rparr>
      else cur ! k)"
  by (simp add: handleEditPhoto_finish_def)

lemma begin_ids: "map photo_id (handleEditPhoto_begin i prev) = map photo_id prev"
  by (simp add: handleEditPhoto_begin_def)

lemma begin_timestamps: "map timestamp (handleEditPhoto_begin i prev) = map timestamp prev"
  by (simp add: handleEditPhoto_begin_def)

lemma finish_ids: "map photo_id (handleEditPhoto_finish i r cur) = map photo_id cur"
  by (simp add: handleEditPhoto_finish_def)

lemma finish_timestamps: "map timestamp (handleEditPhoto_finish i r cur) = map timestamp cur"
  by (simp add: handleEditPhoto_finish_def)

lemma begin_length: "length (handleEditPhoto_begin i prev) = length prev"
  by (simp add: handleEditPhoto_begin_def)

text \<open>
  Claim C8. \<open>handleEditPhoto\<close> changes no identifier and no capture time and leaves every
  photo with another identifier as it was, whatever the style-edit call returns; when the
  call returns \<open>null\<close> (which is also what it returns when the provider fails), the image
  of the edited photo is the one it had and its pending flag is cleared. The same holds of the
  completing update alone, applied to any collection \<open>cur\<close> that other updates have
  produced in the meantime.
\<close>

theorem editStyle_frame:
  "map photo_id (handleEditPhoto g i prompt photos prev) = map photo_id prev
   \<and> map timestamp (handleEditPhoto g i prompt photos prev) = map timestamp prev
   \<and> (\<forall>k < length prev. photo_id (prev ! k) \<noteq> i \<longrightarrow>
        handleEditPhoto g i prompt photos prev ! k = prev ! k)
   \<and> (\<forall>ph. find (\<lambda>p. photo_id p = i) photos = Some ph
          \<and> editPhotoStyle g (dataUrl ph) prompt = Returns None \<longrightarrow>
        (\<forall>k < length prev. photo_id (prev ! k) = i \<longrightarrow>
           dataUrl (handleEditPhoto g i prompt photos prev ! k) = dataUrl (prev ! k)
           \<and> isGeneratingCaption (handleEditPhoto g i prompt photos prev ! k) = Some False))
   \<and> map photo_id (handleEditPhoto_finish i r cur) = map photo_id cur
   \<and> map timestamp (handleEditPhoto_finish i r cur) = map timestamp cur
   \<and> (\<forall>k < length cur. photo_id (cur ! k) \<noteq> i \<longrightarrow>
        handleEditPhoto_finish i r cur ! k = cur ! k)
   \<and> (\<forall>k < length cur. photo_id (cur ! k) = i \<longrightarrow>
        dataUrl (handleEditPhoto_finish i None cur ! k) = dataUrl (cur ! k)
        \<and> isGeneratingCaption (handleEditPhoto_finish i r cur ! k) = Some False)"
proof -
  let ?out = "handleEditPhoto g i prompt photos prev"
  have ids: "map photo_id ?out = map photo_id prev"
    using handleEditPhoto_cases [of g i prompt photos prev]
    by (auto simp: begin_ids finish_ids)
  have ts: "map timestamp ?out = map timestamp prev"
    using handleEditPhoto_cases [of g i prompt photos prev]
    by (auto simp: begin_timestamps finish_timestamps)
  have others: "?out ! k = prev ! k" if "k < length prev" "photo_id (prev ! k) \<noteq> i" for k
    using handleEditPhoto_cases [of g i prompt photos prev] that
    by (auto simp: begin_nth finish_nth begin_length)
  have null: "dataUrl (?out ! k) = dataUrl (prev ! k) \<and> isGeneratingCaption (?out ! k) = Some False"
    if "find (\<lambda>p. photo_id p = i) photos = Some ph"
      and "editPhotoStyle g (dataUrl ph) prompt = Returns None"
      and "k < length prev" and "photo_id (prev ! k) = i" for ph k
  proof -
    have "?out = handleEditPhoto_finish i None (handleEditPhoto_begin i prev)"
      using that(1,2) by (simp add: handleEditPhoto_def)
    then show ?thesis
      using that(3,4) by (simp add: finish_nth begin_nth begin_length or_dataUrl_def)
  qed
  have fin_others: "handleEditPhoto_finish i r cur ! k = cur ! k"
    if "k < length cur" "photo_id (cur ! k) \<noteq> i" for k
    using that by (simp add: finish_nth)
  have fin_null: "dataUrl (handleEditPhoto_finish i None cur ! k) = dataUrl (cur ! k)
        \<and> isGeneratingCaption (handleEditPhoto_finish i r cur ! k) = Some False"
    if "k < length cur" "photo_id (cur ! k) = i" for k
    using that by (simp add: finish_nth or_dataUrl_def)
  show ?thesis
    using ids ts others null finish_ids [of i r cur] finish_timestamps [of i r cur]
      fin_others fin_null
    by blast
qed

text \<open>The theorem for an edit of the first of two photos with a failing provider.\<close>

theorem editStyle_frame_witness:
  "find (\<lambda>p. photo_id p = ''p1'') [example_photo, equator_photo] = Some example_photo
   \<and> editPhotoStyle failing_gemini (dataUrl example_photo) ''sketch'' = Returns None
   \<and> photo_id ([example_photo, equator_photo] ! 0) = ''p1''
   \<and> photo_id ([example_photo, equator_photo] ! 1) \<noteq> ''p1''
   \<and> handleEditPhoto failing_gemini ''p1'' ''sketch''
        [example_photo, equator_photo] [example_photo, equator_photo] ! 1
       = [example_photo, equator_photo] ! 1
   \<and> (dataUrl (handleEditPhoto failing_gemini ''p1'' ''sketch''
        [example_photo, equator_photo] [example_photo, equator_photo] ! 0)
        = dataUrl ([example_photo, equator_photo] ! 0)
      \<and> isGeneratingCaption (handleEditPhoto failing_gemini ''p1'' ''sketch''
        [example_photo, equator_photo] [example_photo, equator_photo] ! 0) = Some False)"
proof -
  let ?ps = "[example_photo, equator_photo]"
  have h1: "find (\<lambda>p. photo_id p = ''p1'') ?ps = Some example_photo"
    by (simp add: example_photo_def)
  have h2: "editPhotoStyle failing_gemini (dataUrl example_photo) ''sketch'' = Returns None"
    by (simp add: editPhotoStyle_def failing_gemini_def try_catch_def)
  have l0: "(0::nat) < length ?ps" and l1: "(1::nat) < length ?ps" by simp_all
  have i0: "photo_id (?ps ! 0) = ''p1''"
    by (simp add: example_photo_def)
  have i1: "photo_id (?ps ! 1) \<noteq> ''p1''"
    by (simp add: example_photo_def equator_photo_def)
  note T = editStyle_frame [of failing_gemini "''p1''" "''sketch''" ?ps ?ps None ?ps]
  note others = T [THEN conjunct2, THEN conjunct2, THEN conjunct1, rule_format, OF l1 i1]
  note null = T [THEN conjunct2, THEN conjunct2, THEN conjunct2, THEN conjunct1, rule_format,
      OF conjI [OF h1 h2] l0 i0]
  show ?thesis by (intro conjI h1 h2 i0 i1 others null [THEN conjunct1] null [THEN conjunct2])
qed

section \<open>Reading the user's photos\<close>

text \<open>
  What \<open>getUserPhotos\<close> returns, with the parser at the type of all JSON values: it always
  returns; the empty array when reading the key throws, when the key is absent or empty and
  when the text does not parse; and otherwise whatever the text parses to.
\<close>

lemma getUserPhotos_untyped_cases:
  "\<exists>v. getUserPhotos_untyped s = Returns v
     \<and> (getItem_rt s USER_STORAGE_KEY = Throws \<longrightarrow> v = JArray [])
     \<and> (getItem_rt s USER_STORAGE_KEY = Returns None \<longrightarrow> v = JArray [])
     \<and> (\<forall>text. getItem_rt s USER_STORAGE_KEY = Returns (Some text) \<longrightarrow>
          (text = [] \<longrightarrow> v = JArray [])
        \<and> (text \<noteq> [] \<and> JSON_parse_rt s text = Throws \<longrightarrow> v = JArray [])
        \<and> (\<forall>parsed. text \<noteq> [] \<and> JSON_parse_rt s text = Returns parsed \<longrightarrow> v = parsed))"
  by (auto simp: getUserPhotos_untyped_def try_catch_def split: outcome.splits option.splits)

text \<open>
  The function at its declared type is the untyped one on a storage whose texts parse to
  lists of photos: \<open>emb\<close> is any way of seeing a list of photos as a JSON value.
\<close>

lemma getUserPhotos_typed_view:
  assumes "getItem_rt r = getItem s"
    and "\<And>text. JSON_parse_rt r text = map_outcome emb (JSON_parse s text)"
    and "emb [] = JArray []"
  shows "getUserPhotos_untyped r = map_outcome emb (getUserPhotos s)"
  using assms
  by (simp add: getUserPhotos_untyped_def getUserPhotos_def try_catch_def map_outcome_def
      split: outcome.splits option.splits)

text \<open>
  Claim C7. The claim has \<open>getUserPhotos\<close> return the stored list of photos, or the empty
  list when the stored content is absent or corrupt, for every content of the key. When the
  key holds the text \<open>123\<close>, which parses, \<open>getUserPhotos\<close> returns the number 123: neither
  a list nor the empty list.
\<close>

theorem getUserPhotos_returns_non_list:
  "getItem_rt number_storage USER_STORAGE_KEY = Returns (Some ''123'')
   \<and> JSON_parse_rt number_storage ''123'' = Returns (JNumber 123)
   \<and> getUserPhotos_untyped number_storage = Returns (JNumber 123)
   \<and> (\<forall>photos. JNumber 123 \<noteq> JArray photos)"
  by (simp add: getUserPhotos_untyped_def number_storage_def try_catch_def)

section \<open>Capture and captioning\<close>

text \<open>
  The awaited call itself never rejects: \<open>generatePhotoCaption\<close> catches a failure of the
  provider and resolves with a default caption.
\<close>

lemma generatePhotoCaption_returns: "\<exists>c. generatePhotoCaption trim g d = Returns c"
  by (simp add: generatePhotoCaption_def try_catch_def split: outcome.splits option.splits)

lemma generatePhotoCaption_provider_fails:
  "API_KEY g \<noteq> [] \<Longrightarrow> caption_request g (cleanBase64 d) caption_prompt = Throws \<Longrightarrow>
   generatePhotoCaption trim g d = Returns ''Snap!''"
  by (simp add: generatePhotoCaption_def try_catch_def)

lemma settle_nth:
  "k < length cur \<Longrightarrow> handleCapture_settle i settled cur ! k =
     (if photo_id (cur ! k) = i
      then (case settled of
              Returns c \<Rightarrow> (cur ! k)\<lparr>caption := Some c, isGeneratingCaption := Some False\<rparr>
            | Throws \<Rightarrow> (cur ! k)\<lparr>isGeneratingCaption := Some False\<rparr>)
      else cur ! k)"
  by (simp add: handleCapture_settle_def split: outcome.splits)

lemma handleCapture_last:
  "last (handleCapture e settled url loc prev) =
     (case settled of
        Returns c \<Rightarrow> (newPhoto e url loc)\<lparr>caption := Some c, isGeneratingCaption := Some False\<rparr>
      | Throws \<Rightarrow> (newPhoto e url loc)\<lparr>isGeneratingCaption := Some False\<rparr>)"
proof -
  have i: "photo_id (newPhoto e url loc) = randomUUID e"
    by (simp add: newPhoto_def Let_def)
  show ?thesis
    by (cases settled)
      (simp_all add: handleCapture_def handleCapture_insert_def handleCapture_settle_def i)
qed

text \<open>
  Claim C4. \<open>handleCapture\<close> first appends the new photo, with the pending flag set,
  progress 0 and an empty caption. When the awaited captioning call settles, the pending flag
  of that photo is cleared whether the call resolved or rejected, in whatever collection the
  updates made in the meantime have left; a resolved call sets the caption to its text, and
  a rejected one leaves the caption as it is, which for the photo just captured is empty.
\<close>

theorem capture_then_caption:
  "handleCapture_insert e url loc prev = prev @ [newPhoto e url loc]
   \<and> photo_id (newPhoto e url loc) = randomUUID e
   \<and> isGeneratingCaption (newPhoto e url loc) = Some True
   \<and> developmentProgress (newPhoto e url loc) = Some 0
   \<and> caption (newPhoto e url loc) = Some []
   \<and> (\<forall>k < length cur. photo_id (cur ! k) = randomUUID e \<longrightarrow>
        isGeneratingCaption (handleCapture_settle (randomUUID e) settled cur ! k) = Some False
        \<and> (\<forall>c. settled = Returns c \<longrightarrow>
              caption (handleCapture_settle (randomUUID e) settled cur ! k) = Some c)
        \<and> (settled = Throws \<longrightarrow>
              caption (handleCapture_settle (randomUUID e) settled cur ! k) = caption (cur ! k)))
   \<and> last (handleCapture e (Returns c) url loc prev)
       = (newPhoto e url loc)\<lparr>caption := Some c, isGeneratingCaption := Some False\<rparr>
   \<and> last (handleCapture e Throws url loc prev)
       = (newPhoto e url loc)\<lparr>isGeneratingCaption := Some False\<rparr>
   \<and> caption (last (handleCapture e Throws url loc prev)) = Some []
   \<and> isGeneratingCaption (last (handleCapture e Throws url loc prev)) = Some False"
proof -
  have ins: "handleCapture_insert e url loc prev = prev @ [newPhoto e url loc]"
    by (simp add: handleCapture_insert_def)
  have new: "photo_id (newPhoto e url loc) = randomUUID e"
    "isGeneratingCaption (newPhoto e url loc) = Some True"
    "developmentProgress (newPhoto e url loc) = Some 0"
    "caption (newPhoto e url loc) = Some []"
    by (simp_all add: newPhoto_def Let_def)
  have settle: "isGeneratingCaption (handleCapture_settle (randomUUID e) settled cur ! k) = Some False
        \<and> (\<forall>c. settled = Returns c \<longrightarrow>
              caption (handleCapture_settle (randomUUID e) settled cur ! k) = Some c)
        \<and> (settled = Throws \<longrightarrow>
              caption (handleCapture_settle (randomUUID e) settled cur ! k) = caption (cur ! k))"
    if "k < length cur" "photo_id (cur ! k) = randomUUID e" for k
    using that by (cases settled) (simp_all add: settle_nth)
  have ok: "last (handleCapture e (Returns c) url loc prev)
       = (newPhoto e url loc)\<lparr>caption := Some c, isGeneratingCaption := Some False\<rparr>"
    by (simp add: handleCapture_last)
  have failed: "last (handleCapture e Throws url loc prev)
       = (newPhoto e url loc)\<lparr>isGeneratingCaption := Some False\<rparr>"
    by (simp add: handleCapture_last)
  have empty: "caption (last (handleCapture e Throws url loc prev)) = Some []"
    "isGeneratingCaption (last (handleCapture e Throws url loc prev)) = Some False"
    by (simp_all add: failed new)
  show ?thesis using ins new settle ok failed empty by blast
qed

text \<open>
  The theorem for a capture on an empty wall: a caption that resolves with \<open>Nice!\<close>, and
  a call that rejects.
\<close>

theorem capture_then_caption_witness:
  "photo_id ([newPhoto example_capture_env ''data:image/jpeg;base64,AAAA'' None] ! 0)
     = randomUUID example_capture_env
   \<and> (isGeneratingCaption (handleCapture_settle (randomUUID example_capture_env) (Returns ''Nice!'')
        [newPhoto example_capture_env ''data:image/jpeg;base64,AAAA'' None] ! 0) = Some False
      \<and> caption (handleCapture_settle (randomUUID example_capture_env) (Returns ''Nice!'')
        [newPhoto example_capture_env ''data:image/jpeg;base64,AAAA'' None] ! 0) = Some ''Nice!'')
   \<and> caption (last (handleCapture example_capture_env Throws
        ''data:image/jpeg;base64,AAAA'' None [])) = Some []
   \<and> isGeneratingCaption (last (handleCapture example_capture_env Throws
        ''data:image/jpeg;base64,AAAA'' None [])) = Some False"
proof -
  let ?url = "''data:image/jpeg;base64,AAAA''"
  let ?p = "newPhoto example_capture_env ?url None"
  have l: "(0::nat) < length [?p]" by simp
  have i: "photo_id ([?p] ! 0) = randomUUID example_capture_env"
    by (simp add: newPhoto_def Let_def)
  note T = capture_then_caption [of example_capture_env ?url None "[]" "[?p]" "Returns ''Nice!''"
      "''Nice!''"]
  note rest = T [THEN conjunct2, THEN conjunct2, THEN conjunct2, THEN conjunct2, THEN conjunct2]
  note settle = rest [THEN conjunct1, rule_format, OF l i]
  note flag = settle [THEN conjunct1]
  note cap = settle [THEN conjunct2, THEN conjunct1, rule_format, OF refl]
  note failed = rest [THEN conjunct2, THEN conjunct2, THEN conjunct2]
  show ?thesis by (intro conjI i flag cap failed [THEN conjunct1] failed [THEN conjunct2])
qed

section \<open>Image compression\<close>




















text \<open>
  The canvas for the sizes 1136 by 710, 1078 by 1078, 3000 by 1 and 1200 by 600, with the
  maximum 800: the first two lose a pixel to rounding, the third has no pixels.
\<close>

lemma sized_canvas_examples:
  "sized_canvas 1136 710 800 = \<lparr>canvas_width = 800, canvas_height = 499, drawn = None\<rparr>"
  "sized_canvas 1078 1078 800 = \<lparr>canvas_width = 799, canvas_height = 800, drawn = None\<rparr>"
  "sized_canvas 3000 1 800 = \<lparr>canvas_width = 800, canvas_height = 0, drawn = None\<rparr>"
  "sized_canvas 1200 600 800 = \<lparr>canvas_width = 800, canvas_height = 400, drawn = None\<rparr>"
  by (simp_all add: sized_canvas_def scaled_size_def to_unsigned_long_def fdiv_def round53_def
      rne_def bits.simps Let_def)




section \<open>Development progress\<close>

lemma step_progress:
  "developmentProgress_state c \<le> 100 \<Longrightarrow>
     developmentProgress_state c \<le> developmentProgress_state (polaroid_step c e)
   \<and> developmentProgress_state (polaroid_step c e) \<le> 100"
  by (cases e) (auto simp: setDevelopmentProgress_def Let_def)

lemma step_ref:
  "progressRef c = developmentProgress_state c \<Longrightarrow>
   progressRef (polaroid_step c e) = developmentProgress_state (polaroid_step c e)"
  by (cases e) (auto simp: setDevelopmentProgress_def Let_def)

lemma step_form:
  "developmentProgress_state (polaroid_step c e) = developmentProgress_state c
   \<or> developmentProgress_state (polaroid_step c e) = min (developmentProgress_state c + 0.5) 100
   \<or> developmentProgress_state (polaroid_step c e) = min (developmentProgress_state c + 2) 100"
  by (cases e) (auto simp: setDevelopmentProgress_def Let_def)

lemma run_bounds:
  "developmentProgress_state c \<le> 100 \<Longrightarrow> progressRef c = developmentProgress_state c \<Longrightarrow>
   t \<in> set (polaroid_run c es) \<Longrightarrow>
     developmentProgress_state c \<le> developmentProgress_state t
   \<and> developmentProgress_state t \<le> 100
   \<and> progressRef t = developmentProgress_state t"
proof (induction es arbitrary: c)
  case Nil
  then show ?case by simp
next
  case (Cons e es)
  show ?case
  proof (cases "t = c")
    case True
    with Cons.prems show ?thesis by simp
  next
    case False
    with Cons.prems have t: "t \<in> set (polaroid_run (polaroid_step c e) es)" by simp
    from step_progress [OF Cons.prems(1), of e] step_ref [OF Cons.prems(2), of e]
      Cons.IH [OF _ _ t]
    show ?thesis by force
  qed
qed

lemma run_sorted:
  "developmentProgress_state c \<le> 100 \<Longrightarrow> progressRef c = developmentProgress_state c \<Longrightarrow>
   sorted (map developmentProgress_state (polaroid_run c es))"
proof (induction es arbitrary: c)
  case Nil
  show ?case by simp
next
  case (Cons e es)
  have s: "developmentProgress_state (polaroid_step c e) \<le> 100"
    "progressRef (polaroid_step c e) = developmentProgress_state (polaroid_step c e)"
    using step_progress [OF Cons.prems(1), of e] step_ref [OF Cons.prems(2), of e] by simp_all
  have "developmentProgress_state c \<le> developmentProgress_state t"
    if "t \<in> set (polaroid_run (polaroid_step c e) es)" for t
    using run_bounds [OF s that] step_progress [OF Cons.prems(1), of e] by linarith
  with Cons.IH [OF s] show ?case by auto
qed

lemma mount_state:
  "developmentProgress_state (mount ph) = (case developmentProgress ph of None \<Rightarrow> 0 | Some v \<Rightarrow> v)
   \<and> progressRef (mount ph) = developmentProgress_state (mount ph)"
  by (simp add: mount_def Let_def split: option.splits)

lemma run_nonempty: "polaroid_run c es \<noteq> []"
  by (cases es) simp_all

lemma last_run_mem: "last (polaroid_run c es) \<in> set (polaroid_run c es)"
  using run_nonempty by (rule last_in_set)

text \<open>
  Claim C3. For a photo whose stored progress is absent or at most 100, as it is for every
  photo the program creates, the progress of the mounted component never decreases and never
  exceeds 100 over any sequence of timer ticks and drag events; every step leaves it as it is
  or replaces it by \<open>min (prev + 0.5) 100\<close> or \<open>min (prev + 2) 100\<close>; and the value
  written back to the collection when the component is unmounted is the component's current
  value, which is at least the stored one.
\<close>

theorem progress_monotone_and_bounded:
  assumes "case developmentProgress ph of None \<Rightarrow> True | Some v \<Rightarrow> v \<le> 100"
  shows "sorted (map developmentProgress_state (polaroid_run (mount ph) es))
       \<and> (\<forall>t \<in> set (polaroid_run (mount ph) es).
            developmentProgress_state t \<le> 100 \<and> progressRef t = developmentProgress_state t)
       \<and> (\<forall>t \<in> set (polaroid_run (mount ph) es). \<forall>e.
            developmentProgress_state (polaroid_step t e) = developmentProgress_state t
          \<or> developmentProgress_state (polaroid_step t e) = min (developmentProgress_state t + 0.5) 100
          \<or> developmentProgress_state (polaroid_step t e) = min (developmentProgress_state t + 2) 100)
       \<and> (\<forall>k < length photos. photo_id (photos ! k) = photo_id ph \<longrightarrow>
            developmentProgress (unmount (photo_id ph) (last (polaroid_run (mount ph) es)) photos ! k)
              = Some (developmentProgress_state (last (polaroid_run (mount ph) es))))
       \<and> (case developmentProgress ph of None \<Rightarrow> 0 | Some v \<Rightarrow> v)
            \<le> developmentProgress_state (last (polaroid_run (mount ph) es))
       \<and> developmentProgress_state (last (polaroid_run (mount ph) es)) \<le> 100"
proof -
  let ?c = "mount ph"
  let ?run = "polaroid_run ?c es"
  have c0: "developmentProgress_state ?c = (case developmentProgress ph of None \<Rightarrow> 0 | Some v \<Rightarrow> v)"
    and cr: "progressRef ?c = developmentProgress_state ?c"
    using mount_state [of ph] by simp_all
  have le: "developmentProgress_state ?c \<le> 100"
    using assms c0 by (simp split: option.splits)
  have srt: "sorted (map developmentProgress_state ?run)"
    using run_sorted [OF le cr] .
  have bnd: "developmentProgress_state t \<le> 100 \<and> progressRef t = developmentProgress_state t"
    if "t \<in> set ?run" for t
    using run_bounds [OF le cr that] by simp
  have form: "developmentProgress_state (polaroid_step t e) = developmentProgress_state t
          \<or> developmentProgress_state (polaroid_step t e) = min (developmentProgress_state t + 0.5) 100
          \<or> developmentProgress_state (polaroid_step t e) = min (developmentProgress_state t + 2) 100"
    for t e by (rule step_form)
  have lst: "developmentProgress_state ?c \<le> developmentProgress_state (last ?run)"
    "developmentProgress_state (last ?run) \<le> 100"
    "progressRef (last ?run) = developmentProgress_state (last ?run)"
    using run_bounds [OF le cr last_run_mem] by simp_all
  have wr: "developmentProgress (unmount (photo_id ph) (last ?run) photos ! k)
              = Some (developmentProgress_state (last ?run))"
    if "k < length photos" "photo_id (photos ! k) = photo_id ph" for k
    using that lst(3) by (simp add: unmount_def updatePhotoProgress_def)
  show ?thesis
    using srt bnd form wr lst(1,2) unfolding c0 by blast
qed

text \<open>The theorem for a photo stored at progress 10: a tick, then a fast drag.\<close>

theorem progress_monotone_and_bounded_witness:
  "(case developmentProgress example_photo of None \<Rightarrow> True | Some v \<Rightarrow> v \<le> 100)
   \<and> photo_id ([example_photo] ! 0) = photo_id example_photo
   \<and> developmentProgress_state
        (last (polaroid_run (mount example_photo)
                 [TimerTick, HandleStart 0 0, HandleMove 20 0, HandleEnd])) = 12.5
   \<and> sorted (map developmentProgress_state
        (polaroid_run (mount example_photo) [TimerTick, HandleStart 0 0, HandleMove 20 0, HandleEnd]))
   \<and> developmentProgress
        (unmount (photo_id example_photo)
           (last (polaroid_run (mount example_photo)
                    [TimerTick, HandleStart 0 0, HandleMove 20 0, HandleEnd]))
           [example_photo] ! 0) = Some 12.5"
proof -
  let ?es = "[TimerTick, HandleStart 0 0, HandleMove 20 0, HandleEnd]"
  have h1: "case developmentProgress example_photo of None \<Rightarrow> True | Some v \<Rightarrow> v \<le> 100"
    by (simp add: example_photo_def)
  have h2: "(0::nat) < length [example_photo]" by simp
  have h3: "photo_id ([example_photo] ! 0) = photo_id example_photo" by simp
  have v: "developmentProgress_state (last (polaroid_run (mount example_photo) ?es)) = 12.5"
    by (simp add: mount_def example_photo_def setDevelopmentProgress_def Let_def)
  note T = progress_monotone_and_bounded [OF h1, of ?es "[example_photo]"]
  note srt = T [THEN conjunct1]
  note wr = T [THEN conjunct2, THEN conjunct2, THEN conjunct2, THEN conjunct1, rule_format, OF h2 h3]
  have wr': "developmentProgress
        (unmount (photo_id example_photo) (last (polaroid_run (mount example_photo) ?es))
           [example_photo] ! 0) = Some 12.5"
    using wr v by simp
  show ?thesis by (intro conjI h1 h3 v srt wr')
qed

section \<open>The global gallery\<close>

lemma Map_set_keys_old: "k \<in> fst ` set m \<Longrightarrow> map fst (Map_set m k v) = map fst m"
  by (induction m k v rule: Map_set.induct) (auto simp: rev_image_eqI)

lemma Map_set_keys_new: "k \<notin> fst ` set m \<Longrightarrow> map fst (Map_set m k v) = map fst m @ [k]"
  by (induction m k v rule: Map_set.induct) auto

lemma Map_set_keys:
  "map fst (Map_set m k v) = (if k \<in> fst ` set m then map fst m else map fst m @ [k])"
  by (simp add: Map_set_keys_old Map_set_keys_new)

lemma find_app:
  "find P (xs @ ys) = (case find P xs of None \<Rightarrow> find P ys | Some x \<Rightarrow> Some x)"
  by (induction xs) auto

lemma Map_set_subset: "set (Map_set m k v) \<subseteq> insert (k, v) (set m)"
  by (induction m k v rule: Map_set.induct) (auto split: if_splits)

lemma Map_set_distinct: "distinct (map fst m) \<Longrightarrow> distinct (map fst (Map_set m k v))"
  by (simp add: Map_set_keys)

lemma Map_set_dom: "fst ` set (Map_set m k v) = insert k (fst ` set m)"
proof -
  have "set (map fst (Map_set m k v)) = insert k (set (map fst m))"
    unfolding Map_set_keys by auto
  then show ?thesis by simp
qed

lemma Map_set_map_of: "map_of (Map_set m k v) = (map_of m)(k \<mapsto> v)"
  by (induction m k v rule: Map_set.induct) auto

lemma set_all_Nil: "set_all m [] = m"
  by (simp add: set_all_def)

lemma set_all_Cons: "set_all m (p # ps) = set_all (Map_set m (photo_id p) p) ps"
  by (simp add: set_all_def)

lemma set_all_distinct: "distinct (map fst m) \<Longrightarrow> distinct (map fst (set_all m ps))"
  by (induction ps arbitrary: m) (simp_all add: set_all_Nil set_all_Cons Map_set_distinct)

lemma set_all_dom: "fst ` set (set_all m ps) = fst ` set m \<union> photo_id ` set ps"
  by (induction ps arbitrary: m) (auto simp: set_all_Nil set_all_Cons Map_set_dom)

lemma set_all_map_of:
  "map_of (set_all m ps) k =
     (case find (\<lambda>q. photo_id q = k) (rev ps) of Some p \<Rightarrow> Some p | None \<Rightarrow> map_of m k)"
proof (induction ps arbitrary: m)
  case Nil
  show ?case by (simp add: set_all_Nil)
next
  case (Cons p ps)
  show ?case
    by (simp add: set_all_Cons Cons.IH Map_set_map_of find_app split: option.splits)
qed

lemma Map_set_keyed: "keyed m \<Longrightarrow> keyed (Map_set m (photo_id p) p)"
  using Map_set_subset [of m "photo_id p" p] by (auto simp: keyed_def)

lemma set_all_keyed: "keyed m \<Longrightarrow> keyed (set_all m ps)"
  by (induction ps arbitrary: m) (simp_all add: set_all_Nil set_all_Cons Map_set_keyed)

lemma keyed_ids: "keyed m \<Longrightarrow> map photo_id (map snd m) = map fst m"
  by (induction m) (auto simp: keyed_def)

lemma new_Map_set_all: "new_Map (map (\<lambda>p. (photo_id p, p)) ps) = set_all [] ps"
  by (simp add: new_Map_def set_all_def foldl_map)

lemma dedupById_set_all: "dedupById rs us = map snd (set_all (set_all [] rs) us)"
  by (simp add: dedupById_def Let_def new_Map_set_all Map_values_def set_all_def)

lemma gallery_keyed: "keyed (set_all (set_all [] rs) us)"
  by (intro set_all_keyed) (simp add: keyed_def)

lemma gallery_distinct: "distinct (map fst (set_all (set_all [] rs) us))"
  by (intro set_all_distinct) simp

lemma dedupById_ids: "map photo_id (dedupById rs us) = map fst (set_all (set_all [] rs) us)"
  by (simp only: dedupById_set_all keyed_ids [OF gallery_keyed])

lemma dedupById_distinct: "distinct (map photo_id (dedupById rs us))"
  by (simp only: dedupById_ids gallery_distinct)

lemma dedupById_id_set:
  "photo_id ` set (dedupById rs us) = photo_id ` set rs \<union> photo_id ` set us"
proof -
  have "set (map photo_id (dedupById rs us)) = set (map fst (set_all (set_all [] rs) us))"
    by (simp only: dedupById_ids)
  then show ?thesis by (simp add: set_all_dom)
qed

lemma dedupById_entry:
  assumes "p \<in> set (dedupById rs us)"
  shows "map_of (set_all (set_all [] rs) us) (photo_id p) = Some p"
proof -
  from assms obtain k where "(k, p) \<in> set (set_all (set_all [] rs) us)"
    by (auto simp: dedupById_set_all)
  moreover from this gallery_keyed [of rs us] have "k = photo_id p"
    by (auto simp: keyed_def)
  ultimately show ?thesis
    using gallery_distinct [of rs us] by simp
qed

lemma find_Some_mem: "find P xs = Some x \<Longrightarrow> x \<in> set xs \<and> P x"
  by (induction xs) (auto split: if_splits)

lemma find_None_iff': "find P xs = None \<longleftrightarrow> (\<forall>x \<in> set xs. \<not> P x)"
  by (induction xs) auto

lemma dedupById_local_wins:
  assumes "p \<in> set (dedupById rs us)" and "photo_id p \<in> photo_id ` set us"
  shows "find (\<lambda>q. photo_id q = photo_id p) (rev us) = Some p"
proof -
  from assms(2) have "find (\<lambda>q. photo_id q = photo_id p) (rev us) \<noteq> None"
    by (auto simp: find_None_iff')
  then obtain u where u: "find (\<lambda>q. photo_id q = photo_id p) (rev us) = Some u" by auto
  from dedupById_entry [OF assms(1)] u show ?thesis
    by (simp add: set_all_map_of)
qed

lemma dedupById_nonempty: "rs \<noteq> [] \<Longrightarrow> dedupById rs us \<noteq> []"
proof -
  assume "rs \<noteq> []"
  then have "photo_id ` set rs \<noteq> {}" by simp
  then have "photo_id ` set (dedupById rs us) \<noteq> {}" by (simp add: dedupById_id_set)
  then show ?thesis by auto
qed

lemma getUserPhotos_returns: "\<exists>ps. getUserPhotos s = Returns ps"
  by (auto simp: getUserPhotos_def try_catch_def split: outcome.splits option.splits)

lemma getSharedPoolLocal_returns: "\<exists>ps. getSharedPoolLocal s = Returns ps"
  by (auto simp: getSharedPoolLocal_def try_catch_def split: outcome.splits option.splits)

lemma remoteOrFallback_returns: "\<exists>rs. remoteOrFallback seed s = Returns rs"
  using getSharedPoolLocal_returns [of s]
  by (auto simp: remoteOrFallback_def and_then_def Let_def)

text \<open>
  Claim C2. \<open>getGlobalGallery\<close> always returns; its result has no two entries with the
  same identifier, its identifiers are those of the remote or fall-back photos and of the
  user's public photos, and every entry whose identifier occurs among the user's public
  photos is one of them (the last one stored under that identifier).
\<close>

theorem gallery_one_entry_per_id:
  "\<exists>remotePhotos userPhotos gallery.
     remoteOrFallback seed s = Returns remotePhotos
   \<and> getUserPhotos s = Returns userPhotos
   \<and> getGlobalGallery_with seed s = Returns gallery
   \<and> distinct (map photo_id gallery)
   \<and> photo_id ` set gallery
       = photo_id ` set remotePhotos \<union> photo_id ` set (filter (\<lambda>p. truthy (isPublic p)) userPhotos)
   \<and> (\<forall>p \<in> set gallery.
        photo_id p \<in> photo_id ` set (filter (\<lambda>p. truthy (isPublic p)) userPhotos) \<longrightarrow>
          p \<in> set (filter (\<lambda>p. truthy (isPublic p)) userPhotos)
        \<and> find (\<lambda>q. photo_id q = photo_id p) (rev (filter (\<lambda>p. truthy (isPublic p)) userPhotos))
            = Some p)"
proof -
  obtain rs where rs: "remoteOrFallback seed s = Returns rs"
    using remoteOrFallback_returns by blast
  obtain us where us: "getUserPhotos s = Returns us"
    using getUserPhotos_returns by blast
  let ?pub = "filter (\<lambda>p. truthy (isPublic p)) us"
  let ?g = "dedupById rs ?pub"
  have g: "getGlobalGallery_with seed s = Returns ?g"
    by (simp add: getGlobalGallery_with_def and_then_def rs us)
  have wins: "p \<in> set ?pub \<and> find (\<lambda>q. photo_id q = photo_id p) (rev ?pub) = Some p"
    if "p \<in> set ?g" "photo_id p \<in> photo_id ` set ?pub" for p
  proof -
    have f: "find (\<lambda>q. photo_id q = photo_id p) (rev ?pub) = Some p"
      using dedupById_local_wins [OF that] .
    from find_Some_mem [OF f] show ?thesis using f by simp
  qed
  show ?thesis
    using rs us g dedupById_distinct [of rs ?pub] dedupById_id_set [of rs ?pub] wins by blast
qed

text \<open>The theorem for the example storage: the user's photo replaces the curated one with its identifier.\<close>

theorem gallery_one_entry_per_id_witness:
  "getUserPhotos example_storage = Returns [shared_photo]
   \<and> getGlobalGallery_with (INITIAL_COMMUNITY_PHOTOS 5000) example_storage
       = Returns (take 3 (INITIAL_COMMUNITY_PHOTOS 5000) @ [shared_photo])
   \<and> shared_photo \<in> set (take 3 (INITIAL_COMMUNITY_PHOTOS 5000) @ [shared_photo])
   \<and> photo_id shared_photo
       \<in> photo_id ` set (filter (\<lambda>p. truthy (isPublic p)) [shared_photo])
   \<and> distinct (map photo_id (take 3 (INITIAL_COMMUNITY_PHOTOS 5000) @ [shared_photo]))
   \<and> find (\<lambda>q. photo_id q = photo_id shared_photo)
        (rev (filter (\<lambda>p. truthy (isPublic p)) [shared_photo])) = Some shared_photo"
proof -
  let ?seed = "INITIAL_COMMUNITY_PHOTOS 5000"
  let ?g = "take 3 ?seed @ [shared_photo]"
  have sj: "shared_json \<noteq> []" by (simp add: shared_json_def)
  have u: "getUserPhotos example_storage = Returns [shared_photo]"
    by (simp add: getUserPhotos_def example_storage_def try_catch_def USER_STORAGE_KEY_def sj)
  have g: "getGlobalGallery_with ?seed example_storage = Returns ?g"
    by (simp add: sj getGlobalGallery_with_def remoteOrFallback_def fetchRemote_def
        example_storage_def and_then_def getSharedPoolLocal_def getUserPhotos_def try_catch_def
        USER_STORAGE_KEY_def SHARED_POOL_KEY_def dedupById_def new_Map_def Map_values_def
        INITIAL_COMMUNITY_PHOTOS_def shared_photo_def example_photo_def truthy_def Let_def)
  have m: "shared_photo \<in> set ?g" by simp
  have pub: "photo_id shared_photo
       \<in> photo_id ` set (filter (\<lambda>p. truthy (isPublic p)) [shared_photo])"
    by (simp add: shared_photo_def truthy_def)
  from gallery_one_entry_per_id [of ?seed example_storage]
  obtain rs us gal where all:
    "remoteOrFallback ?seed example_storage = Returns rs
   \<and> getUserPhotos example_storage = Returns us
   \<and> getGlobalGallery_with ?seed example_storage = Returns gal
   \<and> distinct (map photo_id gal)
   \<and> photo_id ` set gal
       = photo_id ` set rs \<union> photo_id ` set (filter (\<lambda>p. truthy (isPublic p)) us)
   \<and> (\<forall>p \<in> set gal.
        photo_id p \<in> photo_id ` set (filter (\<lambda>p. truthy (isPublic p)) us) \<longrightarrow>
          p \<in> set (filter (\<lambda>p. truthy (isPublic p)) us)
        \<and> find (\<lambda>q. photo_id q = photo_id p) (rev (filter (\<lambda>p. truthy (isPublic p)) us))
            = Some p)"
    by (elim exE)
  note r1 = all [THEN conjunct2, THEN conjunct1]
  note r2 = all [THEN conjunct2, THEN conjunct2, THEN conjunct1]
  note r3 = all [THEN conjunct2, THEN conjunct2, THEN conjunct2, THEN conjunct1]
  note r4 = all [THEN conjunct2, THEN conjunct2, THEN conjunct2, THEN conjunct2, THEN conjunct2]
  from r1 u have us: "us = [shared_photo]" by simp
  from r2 g have gal: "gal = ?g" by simp
  have d: "distinct (map photo_id ?g)" using r3 unfolding gal .
  have f: "find (\<lambda>q. photo_id q = photo_id shared_photo)
        (rev (filter (\<lambda>p. truthy (isPublic p)) [shared_photo])) = Some shared_photo"
    using r4 [unfolded us gal, rule_format, OF m pub] by (rule conjunct2)
  show ?thesis by (intro conjI u g m pub d f)
qed

text \<open>
  Claim C6. When there is no remote client, or the query fails, or it yields no document,
  \<open>getGlobalGallery\<close> returns the curated photos followed by the local pool, merged with
  the user's public photos by identifier; the result is not empty when the curated list is
  not, so it is never empty with the curated photos of the program.
\<close>

theorem gallery_falls_back:
  assumes "\<not> db s \<or> getDocs s = Throws \<or> getDocs s = Returns []"
  shows "\<exists>pool userPhotos gallery.
     getSharedPoolLocal s = Returns pool
   \<and> getUserPhotos s = Returns userPhotos
   \<and> getGlobalGallery_with seed s = Returns gallery
   \<and> gallery = dedupById (seed @ pool) (filter (\<lambda>p. truthy (isPublic p)) userPhotos)
   \<and> photo_id ` set gallery
       = photo_id ` set seed \<union> photo_id ` set pool
         \<union> photo_id ` set (filter (\<lambda>p. truthy (isPublic p)) userPhotos)
   \<and> (seed \<noteq> [] \<longrightarrow> gallery \<noteq> [])
   \<and> (\<exists>g. getGlobalGallery s = Returns g \<and> g \<noteq> [])"
proof -
  have none: "fetchRemote s = []"
    using assms by (auto simp: fetchRemote_def)
  obtain pool where pool: "getSharedPoolLocal s = Returns pool"
    using getSharedPoolLocal_returns by blast
  obtain us where us: "getUserPhotos s = Returns us"
    using getUserPhotos_returns by blast
  let ?pub = "filter (\<lambda>p. truthy (isPublic p)) us"
  let ?g = "dedupById (seed @ pool) ?pub"
  have rf: "remoteOrFallback seed s = Returns (seed @ pool)"
    by (simp add: remoteOrFallback_def none pool and_then_def)
  have g: "getGlobalGallery_with seed s = Returns ?g"
    by (simp add: getGlobalGallery_with_def and_then_def rf us)
  have ids: "photo_id ` set ?g = photo_id ` set seed \<union> photo_id ` set pool \<union> photo_id ` set ?pub"
    by (simp add: dedupById_id_set image_Un)
  have ne: "?g \<noteq> []" if "seed \<noteq> []"
    using that by (intro dedupById_nonempty) simp
  have curated: "INITIAL_COMMUNITY_PHOTOS (load_time s) @ pool \<noteq> []"
    by (simp add: INITIAL_COMMUNITY_PHOTOS_def)
  have rf': "remoteOrFallback (INITIAL_COMMUNITY_PHOTOS (load_time s)) s
      = Returns (INITIAL_COMMUNITY_PHOTOS (load_time s) @ pool)"
    by (simp add: remoteOrFallback_def none pool and_then_def)
  have own: "getGlobalGallery s
      = Returns (dedupById (INITIAL_COMMUNITY_PHOTOS (load_time s) @ pool) ?pub)"
    by (simp add: getGlobalGallery_def getGlobalGallery_with_def and_then_def rf' us)
  have own_ne: "\<exists>g. getGlobalGallery s = Returns g \<and> g \<noteq> []"
    using own dedupById_nonempty [OF curated] by blast
  show ?thesis using pool us g ids ne own_ne by blast
qed

text \<open>The theorem for the example storage, which has no remote client.\<close>

theorem gallery_falls_back_witness:
  "\<not> db example_storage
   \<and> INITIAL_COMMUNITY_PHOTOS 5000 \<noteq> []
   \<and> (\<exists>gallery. getGlobalGallery_with (INITIAL_COMMUNITY_PHOTOS 5000) example_storage
          = Returns gallery \<and> gallery \<noteq> [])"
proof -
  have off: "\<not> db example_storage"
    by (simp add: example_storage_def)
  then have h: "\<not> db example_storage \<or> getDocs example_storage = Throws
      \<or> getDocs example_storage = Returns []"
    by (rule disjI1)
  have ne: "INITIAL_COMMUNITY_PHOTOS 5000 \<noteq> []"
    by (simp add: INITIAL_COMMUNITY_PHOTOS_def)
  from gallery_falls_back [OF h, of "INITIAL_COMMUNITY_PHOTOS 5000"] ne
  have "\<exists>gallery. getGlobalGallery_with (INITIAL_COMMUNITY_PHOTOS 5000) example_storage
          = Returns gallery \<and> gallery \<noteq> []"
    by blast
  with off ne show ?thesis by blast
qed

end
